theory Spec2Isabelle
  imports Complex_Main
begin

section \<open>Data model\<close>

text \<open>
  The Python exceptions that the modelled functions can raise. A function that can raise
  returns \<open>error + 'a\<close>, with \<open>Inl\<close> for the exception.
\<close>

datatype error = IndexError | KeyError | RuntimeError

text \<open>
  A markable, with the fields the library reads: token offsets, the token strings, their
  part-of-speech tags and the gold entity identifier.
\<close>

record markable =
  start_token :: int
  end_token :: int
  string :: "string list"
  tags :: "string list"
  entity :: string

text \<open>Sequencing of fallible computations: the first exception raised is the result.\<close>

definition bind_err :: "error + 'a \<Rightarrow> ('a \<Rightarrow> error + 'b) \<Rightarrow> error + 'b" where
  "bind_err r f = (case r of Inl e \<Rightarrow> Inl e | Inr v \<Rightarrow> f v)"

text \<open>\<open>xs[i]\<close> for an index that is not negative: IndexError out of range.\<close>

definition py_index :: "'a list \<Rightarrow> nat \<Rightarrow> error + 'a" where
  "py_index xs i = (if i < length xs then Inr (xs ! i) else Inl IndexError)"

text \<open>A list comprehension whose element expression can raise: evaluated left to right.\<close>

fun map_err :: "('a \<Rightarrow> error + 'b) \<Rightarrow> 'a list \<Rightarrow> error + 'b list" where
  "map_err f [] = Inr []"
| "map_err f (x # xs) =
     (case f x of Inl e \<Rightarrow> Inl e
      | Inr y \<Rightarrow> (case map_err f xs of Inl e \<Rightarrow> Inl e | Inr ys \<Rightarrow> Inr (y # ys)))"

text \<open>A list comprehension with a condition that can raise.\<close>

fun filter_err :: "('a \<Rightarrow> error + bool) \<Rightarrow> 'a list \<Rightarrow> error + 'a list" where
  "filter_err p [] = Inr []"
| "filter_err p (x # xs) =
     (case p x of Inl e \<Rightarrow> Inl e
      | Inr b \<Rightarrow> (case filter_err p xs of Inl e \<Rightarrow> Inl e
                  | Inr ys \<Rightarrow> Inr (if b then x # ys else ys)))"

section \<open>coref\_rules: pairwise matchers\<close>

text \<open>
  \<open>str.lower\<close> on a token, modelled on byte strings: the ASCII capitals are mapped to
  their small letters, every other character is kept.
\<close>

definition lower_char :: "char \<Rightarrow> char" where
  "lower_char c =
     (case map_of (zip ''ABCDEFGHIJKLMNOPQRSTUVWXYZ'' ''abcdefghijklmnopqrstuvwxyz'') c of
        Some d \<Rightarrow> d
      | None \<Rightarrow> c)"

definition lower :: "string \<Rightarrow> string" where
  "lower s = map lower_char s"

definition pronouns :: "string list" where
  "pronouns =
     [''i'', ''me'', ''mine'', ''you'', ''your'', ''yours'', ''she'', ''her'', ''hers''] @
     [''he'', ''him'', ''his'', ''it'', ''its'', ''they'', ''them'', ''their'', ''theirs''] @
     [''this'', ''those'', ''these'', ''that'', ''we'', ''our'', ''us'', ''ours'']"

definition downcase_list :: "string list \<Rightarrow> string list" where
  "downcase_list toks = map lower toks"

definition exact_match :: "markable \<Rightarrow> markable \<Rightarrow> bool" where
  "exact_match m_a m_i \<longleftrightarrow> downcase_list (string m_a) = downcase_list (string m_i)"

definition exact_match_no_pronouns :: "markable \<Rightarrow> markable \<Rightarrow> bool" where
  "exact_match_no_pronouns m_a m_i \<longleftrightarrow>
     downcase_list (string m_a) = downcase_list (string m_i) \<and>
     \<not> (lower (concat (string m_a)) \<in> set pronouns)"

section \<open>coref\_rules: the sieve resolver\<close>

text \<open>
  The inner loop of \<open>most_recent_match\<close> for one mention \<open>i\<close>:
  \<^verbatim>\<open>for a, m_a in enumerate(markables[:i]): if matcher(m_a, m_i): antecedents[i] = a\<close>
\<close>

definition inner_scan ::
  "('m \<Rightarrow> 'm \<Rightarrow> bool) \<Rightarrow> 'm list \<Rightarrow> nat \<Rightarrow> 'm \<Rightarrow> nat list \<Rightarrow> nat list" where
  "inner_scan matcher markables i m_i antecedents =
     fold (\<lambda>(a, m_a) ants. if matcher m_a m_i then ants[i := a] else ants)
       (enumerate 0 (take i markables)) antecedents"

definition most_recent_match :: "'m list \<Rightarrow> ('m \<Rightarrow> 'm \<Rightarrow> bool) \<Rightarrow> nat list" where
  "most_recent_match markables matcher =
     fold (\<lambda>(i, m_i) ants. inner_scan matcher markables i m_i ants)
       (enumerate 0 markables) [0..<length markables]"

text \<open>\<open>make_resolver\<close> of the module coref\_rules.\<close>

definition coref_rules_make_resolver :: "('m \<Rightarrow> 'm \<Rightarrow> bool) \<Rightarrow> 'm list \<Rightarrow> nat list" where
  "coref_rules_make_resolver pairwise_matcher =
     (\<lambda>markables. most_recent_match markables pairwise_matcher)"

section \<open>coref\_features\<close>

text \<open>
  A feature set is a Python dict from feature names to values. It is modelled as an
  association list in insertion order, since \<open>score_instance\<close> iterates over
  \<open>items()\<close>: assigning to a key that is present replaces its value in place, assigning to
  a new key appends it.
\<close>

type_synonym features = "(string \<times> int) list"

fun dict_set :: "('k \<times> 'v) list \<Rightarrow> 'k \<Rightarrow> 'v \<Rightarrow> ('k \<times> 'v) list" where
  "dict_set [] k v = [(k, v)]"
| "dict_set ((k', v') # d) k v =
     (if k' = k then (k', v) # d else (k', v') # dict_set d k v)"

text \<open>\<open>f.update(g)\<close>: the items of \<open>g\<close> are assigned to \<open>f\<close> in order.\<close>

definition dict_update :: "('k \<times> 'v) list \<Rightarrow> ('k \<times> 'v) list \<Rightarrow> ('k \<times> 'v) list" where
  "dict_update f g = fold (\<lambda>(k, v) d. dict_set d k v) g f"

text \<open>The decimal digits that \<open>"{}".format(n)\<close> prints for an integer.\<close>

definition digit_char :: "nat \<Rightarrow> char" where
  "digit_char d = ''0123456789'' ! d"

function str_nat :: "nat \<Rightarrow> string" where
  "str_nat n = (if n < 10 then [digit_char n] else str_nat (n div 10) @ [digit_char (n mod 10)])"
  by pat_completeness auto
termination
  by (relation "measure id") auto

declare str_nat.simps [simp del]

definition str_int :: "int \<Rightarrow> string" where
  "str_int z = (if z < 0 then CHR ''-'' # str_nat (nat (- z)) else str_nat (nat z))"

text \<open>
  A feature extractor takes the markables and the indices of antecedent and mention. The
  indices are not negative here (the callers produce them with \<open>range\<close> and
  \<open>enumerate\<close>).
\<close>

type_synonym extractor = "markable list \<Rightarrow> nat \<Rightarrow> nat \<Rightarrow> error + features"

definition distance_features ::
  "markable list \<Rightarrow> nat \<Rightarrow> nat \<Rightarrow> int \<Rightarrow> int \<Rightarrow> error + features" where
  "distance_features x a i max_mention_distance max_token_distance =
     (if a = i then Inr []
      else
        let mention_dist = min \<bar>int i - int a\<bar> max_mention_distance in
        bind_err (py_index x i) (\<lambda>x_i.
        bind_err (py_index x a) (\<lambda>x_a.
          let token_dist = min \<bar>start_token x_i - end_token x_a\<bar> max_token_distance;
              f = (if mention_dist > 0
                   then dict_set [] (''mention-distance-'' @ str_int mention_dist) 1 else []);
              f = (if token_dist > 0
                   then dict_set f (''token-distance-'' @ str_int token_dist) 1 else f)
          in Inr f)))"

text \<open>The extractor with the default ceilings \<open>max_mention_distance=5, max_token_distance=10\<close>.\<close>

definition distance_features_default :: extractor where
  "distance_features_default x a i = distance_features x a i 5 10"

definition make_feature_union ::
  "('x \<Rightarrow> nat \<Rightarrow> nat \<Rightarrow> error + ('k \<times> 'v) list) list \<Rightarrow>
   'x \<Rightarrow> nat \<Rightarrow> nat \<Rightarrow> error + ('k \<times> 'v) list" where
  "make_feature_union feat_func_list =
     (\<lambda>x a i.
        fold (\<lambda>feat_func r.
                bind_err r (\<lambda>f. bind_err (feat_func x a i) (\<lambda>g. Inr (dict_update f g))))
          feat_func_list (Inr []))"

section \<open>neural\_net: the pairwise scorer\<close>

text \<open>
  The scorer object. Embedding vectors and the input of the network are vectors of reals
  (the tensors' floating point numbers are idealised). The two embedding tables have
  \<open>len(feat_set)\<close> rows each; their weights, and the feed-forward network \<open>net\<close>
  (linear, ReLU, linear, with one output), are learned parameters and opaque here.
\<close>

record SequentialScorer =
  feat_set :: "string list"
  feat_emb_dim :: nat
  feat_to_idx :: "string \<rightharpoonup> nat"
  idx_to_feat :: "nat \<rightharpoonup> string"
  feat_off_embs :: "nat \<Rightarrow> real list"
  feat_on_embs :: "nat \<Rightarrow> real list"
  net :: "real list \<Rightarrow> real"

text \<open>
  \<open>SequentialScorer.__init__\<close>. The weights that PyTorch draws at random are arguments.
  The constructor has no branch that raises; its result is a sum only so that "construction
  fails" can be stated.
\<close>

definition SequentialScorer_init ::
  "nat \<Rightarrow> string list \<Rightarrow> nat \<Rightarrow> nat \<Rightarrow> (nat \<Rightarrow> real list) \<Rightarrow> (nat \<Rightarrow> real list) \<Rightarrow>
   (real list \<Rightarrow> real) \<Rightarrow> error + SequentialScorer" where
  "SequentialScorer_init mark_embedding_dim feat_set_arg feat_emb_dim_arg hidden_dim
       off_weights on_weights net_fn =
     Inr \<lparr>feat_set = feat_set_arg,
          feat_emb_dim = feat_emb_dim_arg,
          feat_to_idx = fold (\<lambda>(i, feat) d. d(feat \<mapsto> i)) (enumerate 0 feat_set_arg) Map.empty,
          idx_to_feat = fold (\<lambda>(i, feat) d. d(i \<mapsto> feat)) (enumerate 0 feat_set_arg) Map.empty,
          feat_off_embs = off_weights,
          feat_on_embs = on_weights,
          net = net_fn\<rparr>"

text \<open>Row \<open>i\<close> of an \<open>nn.Embedding\<close> with \<open>num_embeddings\<close> rows.\<close>

definition embedding :: "nat \<Rightarrow> (nat \<Rightarrow> real list) \<Rightarrow> nat \<Rightarrow> error + real list" where
  "embedding num_embeddings weight i =
     (if i < num_embeddings then Inr (weight i) else Inl IndexError)"

text \<open>\<open>t[j] = row\<close> on a tensor with \<open>length t\<close> rows.\<close>

definition set_row :: "real list list \<Rightarrow> nat \<Rightarrow> real list \<Rightarrow> error + real list list" where
  "set_row t j row = (if j < length t then Inr (t[j := row]) else Inl IndexError)"

text \<open>
  The first part of \<open>SequentialScorer.forward\<close>, which builds \<open>feature_emb\<close>:
  \<^verbatim>\<open>
  feature_emb = zeros(len(self.feat_set), self.feat_emb_dim)
  for i in range(len(self.feat_set)):
      feature_emb[i] = self.feat_off_embs(LongTensor([i]))
  for i, feat in enumerate(pos_feats):
      feature_emb[self.feat_to_idx[feat]] = self.feat_on_embs(LongTensor([i]))
  \<close>
  In the assignment of the second loop the right-hand side is evaluated first.
\<close>

definition forward_feature_emb :: "SequentialScorer \<Rightarrow> string list \<Rightarrow> error + real list list" where
  "forward_feature_emb self pos_feats =
     (let n = length (feat_set self);
          zeros = replicate n (replicate (feat_emb_dim self) 0)
      in bind_err
           (fold (\<lambda>i r. bind_err r (\<lambda>feature_emb.
                    bind_err (embedding n (feat_off_embs self) i) (\<lambda>row.
                      set_row feature_emb i row)))
              [0..<n] (Inr zeros))
           (\<lambda>feature_emb.
              fold (\<lambda>(i, feat) r. bind_err r (\<lambda>feature_emb.
                      bind_err (embedding n (feat_on_embs self) i) (\<lambda>row.
                        case feat_to_idx self feat of
                          None \<Rightarrow> Inl KeyError
                        | Some j \<Rightarrow> set_row feature_emb j row)))
                (enumerate 0 pos_feats) (Inr feature_emb)))"

text \<open>
  \<open>SequentialScorer.forward\<close>: the markable embeddings and the flattened feature block are
  concatenated and given to the network.
\<close>

definition forward :: "SequentialScorer \<Rightarrow> real list \<Rightarrow> real list \<Rightarrow> string list \<Rightarrow> error + real" where
  "forward self emb_i emb_a pos_feats =
     bind_err (forward_feature_emb self pos_feats) (\<lambda>feature_emb.
       Inr (net self (emb_i @ emb_a @ concat feature_emb)))"

text \<open>\<open>get_pos_feats\<close>, local to \<open>score_instance\<close>.\<close>

definition get_pos_feats :: "extractor \<Rightarrow> markable list \<Rightarrow> nat \<Rightarrow> nat \<Rightarrow> error + string list" where
  "get_pos_feats feats markables a i =
     bind_err (feats markables a i) (\<lambda>f. Inr (map fst (filter (\<lambda>(k, v). v > 0) f)))"

text \<open>
  \<open>score_instance\<close>: one score for each candidate in \<open>markables[:i + 1]\<close>. The source
  allocates \<open>i + 1\<close> slots; when \<open>markables\<close> has fewer than \<open>i + 1\<close> elements the
  remaining slots are uninitialised memory, which the list returned here does not hold.
\<close>

definition score_instance ::
  "SequentialScorer \<Rightarrow> real list list \<Rightarrow> markable list \<Rightarrow> nat \<Rightarrow> extractor \<Rightarrow> error + real list" where
  "score_instance self doc_embs markables i feats =
     map_err (\<lambda>(ant_index, ant).
                bind_err (py_index doc_embs i) (\<lambda>emb_i.
                bind_err (py_index doc_embs ant_index) (\<lambda>emb_a.
                bind_err (get_pos_feats feats markables ant_index i) (\<lambda>pos_feats.
                  forward self emb_i emb_a pos_feats))))
       (enumerate 0 (take (i + 1) markables))"

text \<open>\<open>torch.max\<close> of a one-dimensional tensor: it raises on an empty one.\<close>

fun torch_max :: "real list \<Rightarrow> error + real" where
  "torch_max [] = Inl RuntimeError"
| "torch_max (x # xs) = Inr (fold max xs x)"

text \<open>
  \<open>instance_top_scores\<close>. \<open>None\<close> is the pair \<open>(None, None)\<close> of the source.
  \<open>true_antecedent\<close> is an index that is not negative.
\<close>

definition instance_top_scores ::
  "SequentialScorer \<Rightarrow> real list list \<Rightarrow> markable list \<Rightarrow> nat \<Rightarrow> nat \<Rightarrow> extractor \<Rightarrow>
   error + (real \<times> real) option" where
  "instance_top_scores self doc_embs markables i true_antecedent feats =
     (if i = 0 \<or> i = true_antecedent then Inr None
      else
        bind_err (score_instance self doc_embs markables i feats) (\<lambda>scores.
        bind_err (filter_err (\<lambda>index.
                    bind_err (py_index markables index) (\<lambda>m.
                    bind_err (py_index markables true_antecedent) (\<lambda>m_t.
                      Inr (entity m = entity m_t))))
                  [0..<i]) (\<lambda>all_trues_indices.
        bind_err (filter_err (\<lambda>index.
                    bind_err (py_index markables index) (\<lambda>m.
                    bind_err (py_index markables true_antecedent) (\<lambda>m_t.
                      Inr (entity m \<noteq> entity m_t))))
                  [0..<i]) (\<lambda>all_false_indices.
          if length all_trues_indices = i then Inr None
          else
            bind_err (bind_err (map_err (py_index scores) all_trues_indices) torch_max)
              (\<lambda>trues_max_val.
            bind_err (bind_err (map_err (py_index scores) all_false_indices) torch_max)
              (\<lambda>false_max_val.
              Inr (Some (trues_max_val, false_max_val))))))))"

section \<open>neural\_net: the training loss of one document\<close>

text \<open>
  The loss of \<open>train\<close> is a float32 tensor. A float32 value is a real number, an
  infinity or NaN.
\<close>

datatype float32 = Finite real | PosInf | NegInf | NaN

text \<open>
  Arithmetic on float32 values, as on the tensors: an operation on two finite values rounds
  the exact result with \<open>rnd\<close>, the rounding of the machine, which is an argument; the
  infinities absorb finite values, \<open>inf - inf\<close> is NaN, and NaN propagates.
\<close>

fun fneg :: "float32 \<Rightarrow> float32" where
  "fneg (Finite x) = Finite (- x)"
| "fneg PosInf = NegInf"
| "fneg NegInf = PosInf"
| "fneg NaN = NaN"

fun fadd :: "(real \<Rightarrow> float32) \<Rightarrow> float32 \<Rightarrow> float32 \<Rightarrow> float32" where
  "fadd rnd NaN y = NaN"
| "fadd rnd x NaN = NaN"
| "fadd rnd PosInf NegInf = NaN"
| "fadd rnd NegInf PosInf = NaN"
| "fadd rnd PosInf y = PosInf"
| "fadd rnd x PosInf = PosInf"
| "fadd rnd NegInf y = NegInf"
| "fadd rnd x NegInf = NegInf"
| "fadd rnd (Finite x) (Finite y) = rnd (x + y)"

definition fsub :: "(real \<Rightarrow> float32) \<Rightarrow> float32 \<Rightarrow> float32 \<Rightarrow> float32" where
  "fsub rnd x y = fadd rnd x (fneg y)"

text \<open>
  \<open>torch.max\<close> of the two-element tensor \<open>torch.cat((x, y))\<close>: NaN if one of the two is
  NaN, and the greater one otherwise.
\<close>

fun fmax :: "float32 \<Rightarrow> float32 \<Rightarrow> float32" where
  "fmax NaN y = NaN"
| "fmax x NaN = NaN"
| "fmax PosInf y = PosInf"
| "fmax x PosInf = PosInf"
| "fmax NegInf y = y"
| "fmax x NegInf = x"
| "fmax (Finite x) (Finite y) = Finite (max x y)"

text \<open>A float32 value is non-negative: NaN and the negative values are not.\<close>

fun nonneg :: "float32 \<Rightarrow> bool" where
  "nonneg (Finite x) \<longleftrightarrow> 0 \<le> x"
| "nonneg PosInf \<longleftrightarrow> True"
| "nonneg NegInf \<longleftrightarrow> False"
| "nonneg NaN \<longleftrightarrow> False"

fun is_finite :: "float32 \<Rightarrow> bool" where
  "is_finite (Finite x) \<longleftrightarrow> True"
| "is_finite PosInf \<longleftrightarrow> False"
| "is_finite NegInf \<longleftrightarrow> False"
| "is_finite NaN \<longleftrightarrow> False"

text \<open>
  The loop of \<open>train\<close> over the mentions of one document:
  \<^verbatim>\<open>
  loss = Variable(FloatTensor([0.0]))
  for i in range(len(marks)):
      max_t, max_f = scoring_model.instance_top_scores(att_embs, marks, i, true_ants[i], feats)
      if max_t is None: continue
      marg = Variable(Tensor([margin])) - max_t + max_f
      loss += torch.max(torch.cat((_zero, marg)))
  \<close>
  \<open>scoring_model\<close> is an argument of \<open>train\<close>; it is given here by its method
  \<open>instance_top_scores\<close>, whose two results are float32 tensors. \<open>margin\<close> is the
  tensor made of the margin. \<open>true_ants\<close> is the result of
  \<open>coref.get_true_antecedents(marks)\<close>, a function of another module; it is an argument.
\<close>

definition train_document_loss ::
  "(real \<Rightarrow> float32) \<Rightarrow>
   ('embs \<Rightarrow> markable list \<Rightarrow> nat \<Rightarrow> nat \<Rightarrow> extractor \<Rightarrow> error + (float32 \<times> float32) option) \<Rightarrow>
   'embs \<Rightarrow> markable list \<Rightarrow> nat list \<Rightarrow> extractor \<Rightarrow> float32 \<Rightarrow> error + float32" where
  "train_document_loss rnd scoring_model att_embs marks true_ants feats margin =
     fold (\<lambda>i r. bind_err r (\<lambda>loss.
             bind_err (py_index true_ants i) (\<lambda>true_ant.
             bind_err (scoring_model att_embs marks i true_ant feats)
               (\<lambda>top. case top of
                         None \<Rightarrow> Inr loss
                       | Some (max_t, max_f) \<Rightarrow>
                           (let marg = fadd rnd (fsub rnd margin max_t) max_f
                            in Inr (fadd rnd loss (fmax (Finite 0) marg)))))))
       [0..<length marks] (Inr (Finite 0))"

text \<open>
  The method \<open>instance_top_scores\<close> of a \<open>SequentialScorer\<close> as \<open>train\<close> calls it.
  The scorer above computes its scores over the reals; the float32 tensor of a score is the
  score rounded, so that a score beyond the range of float32 arrives as an infinity.
\<close>

definition scorer_top_scores ::
  "(real \<Rightarrow> float32) \<Rightarrow> SequentialScorer \<Rightarrow> real list list \<Rightarrow> markable list \<Rightarrow> nat \<Rightarrow> nat \<Rightarrow>
   extractor \<Rightarrow> error + (float32 \<times> float32) option" where
  "scorer_top_scores rnd self doc_embs markables i true_antecedent feats =
     (case instance_top_scores self doc_embs markables i true_antecedent feats of
        Inl e \<Rightarrow> Inl e
      | Inr None \<Rightarrow> Inr None
      | Inr (Some (trues_max_val, false_max_val)) \<Rightarrow>
          Inr (Some (rnd trues_max_val, rnd false_max_val)))"

section \<open>neural\_net: the learned resolver\<close>

text \<open>
  Modelled from the spec: \<open>utils.argmax\<close> belongs to the module utils, whose source
  is not among the library files. The spec says that the resolver selects the argmax over
  the scores of the candidates; this is the index of the first maximal score.
\<close>

definition argmax :: "real list \<Rightarrow> error + nat" where
  "argmax scores =
     (case scores of
        [] \<Rightarrow> Inl RuntimeError
      | x # xs \<Rightarrow>
          Inr (fst (fold (\<lambda>(j, y) (best, b). if b < y then (j, y) else (best, b))
                      (enumerate 1 xs) (0, x))))"

text \<open>
  \<open>make_resolver\<close> of the module neural\_net, with the \<open>utils.argmax\<close> it calls as an
  argument:
  \<^verbatim>\<open>
  lambda markables: [
      utils.argmax(scoring_model.score_instance(emb_dict[markables[0].entity], markables, i, feats))
      for i in range(len(markables))]
  \<close>
\<close>

definition neural_net_make_resolver ::
  "extractor \<Rightarrow> (string \<rightharpoonup> real list list) \<Rightarrow> SequentialScorer \<Rightarrow> (real list \<Rightarrow> error + nat) \<Rightarrow>
   markable list \<Rightarrow> error + nat list" where
  "neural_net_make_resolver feats emb_dict scoring_model utils_argmax =
     (\<lambda>markables.
        map_err (\<lambda>i.
            bind_err (py_index markables 0) (\<lambda>m0.
              case emb_dict (entity m0) of
                None \<Rightarrow> Inl KeyError
              | Some doc_embs \<Rightarrow>
                  bind_err (score_instance scoring_model doc_embs markables i feats)
                    utils_argmax))
          [0..<length markables])"

text \<open>
  Two markable lists differ only in the gold entity identifiers: they have the same length
  and each markable is the other one with another \<open>entity\<close>.
\<close>

definition differ_only_in_entity :: "markable list \<Rightarrow> markable list \<Rightarrow> bool" where
  "differ_only_in_entity ms ms' \<longleftrightarrow> list_all2 (\<lambda>m m'. m' = m\<lparr>entity := entity m'\<rparr>) ms ms'"

section \<open>Example documents\<close>

text \<open>
  A document for the sieve resolver: "the dog", "it", "The Dog", "the dog".
\<close>

definition sieve_markables :: "markable list" where
  "sieve_markables =
     [\<lparr>start_token = 0, end_token = 1, string = [''the'', ''dog''], tags = [''DT'', ''NN''],
       entity = ''e1''\<rparr>,
      \<lparr>start_token = 3, end_token = 3, string = [''it''], tags = [''PRP''], entity = ''e1''\<rparr>,
      \<lparr>start_token = 5, end_token = 6, string = [''The'', ''Dog''], tags = [''DT'', ''NN''],
       entity = ''e1''\<rparr>,
      \<lparr>start_token = 8, end_token = 9, string = [''the'', ''dog''], tags = [''DT'', ''NN''],
       entity = ''e1''\<rparr>]"

text \<open>
  A document for the learned resolver, "Ann", "Bob", "She" at tokens 0, 2 and 4, and a
  scorer over the four distance features that occur in it. The active embedding of the
  feature at vocabulary index \<open>i\<close> is \<open>[i + 1]\<close>, every inactive embedding is \<open>[0]\<close>,
  and the network adds up its input.
\<close>

definition example_markables :: "markable list" where
  "example_markables =
     [\<lparr>start_token = 0, end_token = 0, string = [''Ann''], tags = [''NNP''], entity = ''e1''\<rparr>,
      \<lparr>start_token = 2, end_token = 2, string = [''Bob''], tags = [''NNP''], entity = ''e2''\<rparr>,
      \<lparr>start_token = 4, end_token = 4, string = [''She''], tags = [''PRP''], entity = ''e1''\<rparr>]"

definition example_feat_set :: "string list" where
  "example_feat_set =
     [''mention-distance-1'', ''mention-distance-2'', ''token-distance-2'', ''token-distance-4'']"

definition example_scorer :: SequentialScorer where
  "example_scorer =
     projr (SequentialScorer_init 1 example_feat_set 1 1 (\<lambda>i. [0]) (\<lambda>i. [real i + 1]) sum_list)"

definition example_embs :: "real list list" where
  "example_embs = [[2], [1], [3]]"

definition example_emb_dict :: "string \<rightharpoonup> real list list" where
  "example_emb_dict = [''e1'' \<mapsto> [[2], [1], [3]], ''e2'' \<mapsto> [[0], [5], [0]]]"

text \<open>
  A rounding for the examples: a real whose magnitude is at most the largest float32 value,
  \<open>2^128 - 2^104\<close>, is kept, and a real beyond it overflows to an infinity. (float32
  rounds to 24 significant bits as well; it keeps the small integers and the powers of two
  of the examples as they are.)
\<close>

definition max_float32 :: real where
  "max_float32 = 2 ^ 128 - 2 ^ 104"

definition round_in_range :: "real \<Rightarrow> float32" where
  "round_in_range r =
     (if max_float32 < r then PosInf else if r < - max_float32 then NegInf else Finite r)"

text \<open>Embeddings of the example document with components of \<open>2^127\<close>.\<close>

definition huge_embs :: "real list list" where
  "huge_embs = [[2 ^ 127], [2 ^ 127], [2 ^ 127]]"

text \<open>The same document with other gold entity identifiers.\<close>

definition relabelled_first :: "markable list" where
  "relabelled_first = example_markables[0 := (example_markables ! 0)\<lparr>entity := ''e2''\<rparr>]"

definition relabelled_rest :: "markable list" where
  "relabelled_rest =
     example_markables[1 := (example_markables ! 1)\<lparr>entity := ''e7''\<rparr>,
                       2 := (example_markables ! 2)\<lparr>entity := ''e9''\<rparr>]"

section \<open>The sieve resolver selects the most recent match\<close>


lemma enumerate_take_Suc:
  "n < length ms \<Longrightarrow> enumerate 0 (take (Suc n) ms) = enumerate 0 (take n ms) @ [(n, ms ! n)]"
  by (simp add: take_Suc_conv_app_nth enumerate_append_eq)

lemma scan_fold_length:
  fixes matcher :: "'m \<Rightarrow> 'm \<Rightarrow> bool"
  shows "length (fold (\<lambda>(a, m_a) ants. if matcher m_a m_i then ants[i := a] else ants) xs ants)
      = length ants"
  by (induction xs arbitrary: ants) (auto split: prod.splits)

lemma scan_fold_other:
  fixes matcher :: "'m \<Rightarrow> 'm \<Rightarrow> bool"
  shows "j \<noteq> i \<Longrightarrow>
    fold (\<lambda>(a, m_a) ants. if matcher m_a m_i then ants[i := a] else ants) xs ants ! j = ants ! j"
  by (induction xs arbitrary: ants) (auto split: prod.splits)

lemma inner_scan_length:
  "length (inner_scan matcher ms i m_i ants) = length ants"
  by (simp add: inner_scan_def scan_fold_length)

lemma inner_scan_other:
  "j \<noteq> i \<Longrightarrow> inner_scan matcher ms i m_i ants ! j = ants ! j"
  by (simp add: inner_scan_def scan_fold_other)

lemma Max_last_match:
  "P n \<Longrightarrow> Max {a. a < Suc n \<and> P a} = n"
  by (rule Max_eqI) (auto simp: less_Suc_eq_le)

lemma scan_fold_prefix:
  fixes matcher :: "'m \<Rightarrow> 'm \<Rightarrow> bool"
  assumes "n \<le> length ms" "i < length ants"
  shows "fold (\<lambda>(a, m_a) ants. if matcher m_a m_i then ants[i := a] else ants)
           (enumerate 0 (take n ms)) ants ! i =
         (if \<exists>a<n. matcher (ms ! a) m_i then Max {a. a < n \<and> matcher (ms ! a) m_i}
          else ants ! i)"
  using assms(1)
proof (induction n)
  case 0
  then show ?case by simp
next
  case (Suc n)
  let ?f = "\<lambda>(a, m_a) ants. if matcher m_a m_i then ants[i := a] else ants"
  let ?r = "fold ?f (enumerate 0 (take n ms)) ants"
  have len: "i < length ?r"
    using assms(2) by (simp add: scan_fold_length)
  have n: "n < length ms" using Suc.prems by simp
  have step: "fold ?f (enumerate 0 (take (Suc n) ms)) ants =
      (if matcher (ms ! n) m_i then ?r[i := n] else ?r)"
    by (simp add: enumerate_take_Suc [OF n])
  show ?case
  proof (cases "matcher (ms ! n) m_i")
    case True
    then have "\<exists>a<Suc n. matcher (ms ! a) m_i" by blast
    moreover have "Max {a. a < Suc n \<and> matcher (ms ! a) m_i} = n"
      using True by (rule Max_last_match [of "\<lambda>a. matcher (ms ! a) m_i"])
    ultimately show ?thesis using True len by (simp add: step)
  next
    case False
    then have eq: "{a. a < Suc n \<and> matcher (ms ! a) m_i} = {a. a < n \<and> matcher (ms ! a) m_i}"
      by (auto simp: less_Suc_eq)
    have ex: "(\<exists>a<Suc n. matcher (ms ! a) m_i) \<longleftrightarrow> (\<exists>a<n. matcher (ms ! a) m_i)"
      using False by (auto simp: less_Suc_eq)
    from Suc.IH n have "?r ! i =
      (if \<exists>a<n. matcher (ms ! a) m_i then Max {a. a < n \<and> matcher (ms ! a) m_i} else ants ! i)"
      by simp
    then show ?thesis using False by (simp only: step eq ex if_False)
  qed
qed

lemma inner_scan_at:
  assumes "i \<le> length ms" "i < length ants"
  shows "inner_scan matcher ms i m_i ants ! i =
         (if \<exists>a<i. matcher (ms ! a) m_i then Max {a. a < i \<and> matcher (ms ! a) m_i}
          else ants ! i)"
  unfolding inner_scan_def using assms by (rule scan_fold_prefix)

lemma outer_prefix:
  fixes matcher :: "'m \<Rightarrow> 'm \<Rightarrow> bool"
  assumes "k \<le> length ms"
  shows "length (fold (\<lambda>(i, m_i) ants. inner_scan matcher ms i m_i ants)
            (enumerate 0 (take k ms)) [0..<length ms]) = length ms \<and>
         (\<forall>j<length ms.
            fold (\<lambda>(i, m_i) ants. inner_scan matcher ms i m_i ants)
              (enumerate 0 (take k ms)) [0..<length ms] ! j =
            (if j < k then
               (if \<exists>a<j. matcher (ms ! a) (ms ! j)
                then Max {a. a < j \<and> matcher (ms ! a) (ms ! j)} else j)
             else j))"
  using assms
proof (induction k)
  case 0
  then show ?case by simp
next
  case (Suc k)
  let ?g = "\<lambda>(i, m_i) ants. inner_scan matcher ms i m_i ants"
  let ?r = "fold ?g (enumerate 0 (take k ms)) [0..<length ms]"
  have k: "k < length ms" using Suc.prems by simp
  have IH: "length ?r = length ms"
    "\<And>j. j < length ms \<Longrightarrow> ?r ! j =
       (if j < k then
          (if \<exists>a<j. matcher (ms ! a) (ms ! j)
           then Max {a. a < j \<and> matcher (ms ! a) (ms ! j)} else j)
        else j)"
    using Suc.IH k by simp_all
  have step: "fold ?g (enumerate 0 (take (Suc k) ms)) [0..<length ms] =
      inner_scan matcher ms k (ms ! k) ?r"
    by (simp add: enumerate_take_Suc [OF k])
  have at_k: "inner_scan matcher ms k (ms ! k) ?r ! k =
      (if \<exists>a<k. matcher (ms ! a) (ms ! k)
       then Max {a. a < k \<and> matcher (ms ! a) (ms ! k)} else k)"
    using inner_scan_at [of k ms ?r matcher "ms ! k"] k IH(1) IH(2) [of k] by auto
  show ?case
  proof (intro conjI allI impI)
    show "length (fold ?g (enumerate 0 (take (Suc k) ms)) [0..<length ms]) = length ms"
      by (simp only: step inner_scan_length IH(1))
  next
    fix j assume j: "j < length ms"
    show "fold ?g (enumerate 0 (take (Suc k) ms)) [0..<length ms] ! j =
       (if j < Suc k then
          (if \<exists>a<j. matcher (ms ! a) (ms ! j)
           then Max {a. a < j \<and> matcher (ms ! a) (ms ! j)} else j)
        else j)"
    proof (cases "j = k")
      case True
      then show ?thesis using at_k by (simp only: step) auto
    next
      case False
      then have "inner_scan matcher ms k (ms ! k) ?r ! j = ?r ! j"
        by (rule inner_scan_other)
      then show ?thesis using False IH(2) [OF j] by (simp only: step) (simp add: less_Suc_eq)
    qed
  qed
qed

text \<open>
  C1: for every markable list and every pairwise predicate, \<open>most_recent_match\<close> returns
  one antecedent per markable; the antecedent of mention \<open>i\<close> is the largest index
  \<open>a < i\<close> on which the predicate holds for \<open>(markables[a], markables[i])\<close>, and \<open>i\<close>
  itself when there is none. So it is at most \<open>i\<close>, and when the predicate holds for
  \<open>a1 < a2 < i\<close> the antecedent is at least \<open>a2\<close> and is not \<open>a1\<close>.
\<close>

theorem most_recent_match_spec:
  "length (most_recent_match markables matcher) = length markables \<and>
   (\<forall>i<length markables.
      most_recent_match markables matcher ! i =
        (if \<exists>a<i. matcher (markables ! a) (markables ! i)
         then Max {a. a < i \<and> matcher (markables ! a) (markables ! i)} else i) \<and>
      most_recent_match markables matcher ! i \<le> i \<and>
      (\<forall>a1 a2. a1 < a2 \<and> a2 < i \<and> matcher (markables ! a1) (markables ! i) \<and>
          matcher (markables ! a2) (markables ! i) \<longrightarrow>
          a2 \<le> most_recent_match markables matcher ! i \<and>
          most_recent_match markables matcher ! i \<noteq> a1))"
proof -
  let ?r = "most_recent_match markables matcher"
  have pre: "length ?r = length markables \<and>
    (\<forall>j<length markables. ?r ! j =
        (if \<exists>a<j. matcher (markables ! a) (markables ! j)
         then Max {a. a < j \<and> matcher (markables ! a) (markables ! j)} else j))"
    using outer_prefix [of "length markables" markables matcher]
    by (simp add: most_recent_match_def)
  have rest: "?r ! i \<le> i \<and> (\<forall>a1 a2. a1 < a2 \<and> a2 < i \<and> matcher (markables ! a1) (markables ! i) \<and>
          matcher (markables ! a2) (markables ! i) \<longrightarrow> a2 \<le> ?r ! i \<and> ?r ! i \<noteq> a1)"
    if i: "i < length markables" for i
  proof -
    let ?S = "{a. a < i \<and> matcher (markables ! a) (markables ! i)}"
    have fin: "finite ?S" by simp
    have val: "?r ! i = (if ?S \<noteq> {} then Max ?S else i)"
      using pre i by auto
    have le: "?r ! i \<le> i"
    proof (cases "?S = {}")
      case True then show ?thesis using val by simp
    next
      case False
      then have "Max ?S \<in> ?S" using fin by (rule Max_in [rotated])
      then show ?thesis using val False by simp
    qed
    have "a2 \<le> ?r ! i \<and> ?r ! i \<noteq> a1"
      if "a1 < a2" "a2 < i" "matcher (markables ! a1) (markables ! i)"
         "matcher (markables ! a2) (markables ! i)" for a1 a2
    proof -
      have "a2 \<in> ?S" using that by simp
      then have "?S \<noteq> {}" "a2 \<le> Max ?S" using fin by auto
      then show ?thesis using val that(1) by simp
    qed
    then show ?thesis using le by blast
  qed
  show ?thesis using pre rest by blast
qed

theorem most_recent_match_spec_witness:
  "(3::nat) < length sieve_markables \<and>
   exact_match (sieve_markables ! 0) (sieve_markables ! 3) \<and>
   exact_match (sieve_markables ! 2) (sieve_markables ! 3) \<and>
   most_recent_match sieve_markables exact_match ! 3 = 2 \<and>
   most_recent_match sieve_markables exact_match ! 1 = 1"
proof -
  have len: "length sieve_markables = 4"
    by (simp add: sieve_markables_def)
  have m03: "exact_match (sieve_markables ! 0) (sieve_markables ! 3)"
    by (simp add: sieve_markables_def exact_match_def)
  have m23: "exact_match (sieve_markables ! 2) (sieve_markables ! 3)"
    by (simp add: sieve_markables_def exact_match_def downcase_list_def lower_def lower_char_def)
  have m01: "\<not> exact_match (sieve_markables ! 0) (sieve_markables ! 1)"
    by (simp add: sieve_markables_def exact_match_def downcase_list_def)
  have spec: "\<forall>i<4. most_recent_match sieve_markables exact_match ! i \<le> i \<and>
      most_recent_match sieve_markables exact_match ! i =
        (if \<exists>a<i. exact_match (sieve_markables ! a) (sieve_markables ! i)
         then Max {a. a < i \<and> exact_match (sieve_markables ! a) (sieve_markables ! i)} else i) \<and>
      (\<forall>a1 a2. a1 < a2 \<and> a2 < i \<and> exact_match (sieve_markables ! a1) (sieve_markables ! i) \<and>
          exact_match (sieve_markables ! a2) (sieve_markables ! i) \<longrightarrow>
          a2 \<le> most_recent_match sieve_markables exact_match ! i)"
    using most_recent_match_spec [of sieve_markables exact_match] len by simp
  have "2 \<le> most_recent_match sieve_markables exact_match ! 3"
    using spec m03 m23 by (auto simp: numeral_3_eq_3)
  moreover have "most_recent_match sieve_markables exact_match ! 3 \<noteq> 3"
  proof -
    let ?S = "{a. a < 3 \<and> exact_match (sieve_markables ! a) (sieve_markables ! 3)}"
    have "0 \<in> ?S" using m03 by simp
    then have ne: "?S \<noteq> {}" by blast
    then have "Max ?S \<in> ?S" by (intro Max_in) simp_all
    moreover have "\<exists>a<3. exact_match (sieve_markables ! a) (sieve_markables ! 3)"
      using ne by blast
    then have "most_recent_match sieve_markables exact_match ! 3 = Max ?S"
      using spec by simp
    ultimately show ?thesis by simp
  qed
  moreover have "most_recent_match sieve_markables exact_match ! 3 \<le> 3"
    using spec by simp
  ultimately have r3: "most_recent_match sieve_markables exact_match ! 3 = 2" by linarith
  have "\<not> (\<exists>a<1. exact_match (sieve_markables ! a) (sieve_markables ! 1))"
    using m01 by simp
  then have r1: "most_recent_match sieve_markables exact_match ! 1 = 1"
    using spec by auto
  show ?thesis using len m03 m23 r3 r1 by simp
qed

section \<open>Symmetry of the exact match without pronouns\<close>

lemma lower_concat: "lower (concat toks) = concat (downcase_list toks)"
  by (induction toks) (simp_all add: lower_def downcase_list_def)

text \<open>
  C10: \<open>exact_match_no_pronouns\<close> is symmetric. The pronoun test reads the first argument
  only, but under equal downcased token lists the joined and lowercased strings of the two
  markables are the same string.
\<close>

theorem exact_match_no_pronouns_symmetric:
  "exact_match_no_pronouns x y = exact_match_no_pronouns y x"
  by (auto simp: exact_match_no_pronouns_def lower_concat)

section \<open>Documents without markables\<close>

text \<open>
  C2: on a document with zero markables both resolvers return the empty assignment: the
  sieve resolver for every predicate, and the learned resolver for every feature extractor,
  embedding dictionary, scoring model and argmax, without an exception.
\<close>

theorem resolvers_on_empty_document:
  "coref_rules_make_resolver matcher [] = [] \<and>
   neural_net_make_resolver feats emb_dict scoring_model utils_argmax [] = Inr []"
  by (simp add: coref_rules_make_resolver_def most_recent_match_def
      neural_net_make_resolver_def)

section \<open>Distance features\<close>

lemma str_int_5: "str_int 5 = ''5''"
  by (simp add: str_int_def str_nat.simps [of 5] digit_char_def)

lemma str_int_small: "str_int 1 = ''1''" "str_int 2 = ''2''" "str_int 4 = ''4''"
  by (simp_all add: str_int_def str_nat.simps [of "Suc 0"] str_nat.simps [of 2]
      str_nat.simps [of 4] digit_char_def)

lemma distance_features_example:
  "distance_features_default example_markables 0 0 = Inr []"
  "distance_features_default example_markables 1 1 = Inr []"
  "distance_features_default example_markables 2 2 = Inr []"
  "distance_features_default example_markables 0 1 =
     Inr [(''mention-distance-1'', 1), (''token-distance-2'', 1)]"
  "distance_features_default example_markables 0 2 =
     Inr [(''mention-distance-2'', 1), (''token-distance-4'', 1)]"
  "distance_features_default example_markables 1 2 =
     Inr [(''mention-distance-1'', 1), (''token-distance-2'', 1)]"
  by (simp_all add: distance_features_default_def distance_features_def example_markables_def
      py_index_def bind_err_def str_int_small)

text \<open>
  C7: \<open>distance_features\<close> returns the empty feature set when \<open>a = i\<close>, for any
  ceilings. For two different indices of the markable list it returns exactly the feature
  \<open>mention-distance-d\<close> with value 1 for \<open>d = min(|i - a|, max_mention_distance)\<close> if
  \<open>d > 0\<close>, followed by the feature \<open>token-distance-t\<close> with value 1 for
  \<open>t = min(|start_token[i] - end_token[a]|, max_token_distance)\<close> if \<open>t > 0\<close>, and
  nothing else. With the ceiling 5 every mention distance of at least 5 (so 5, 6 and 100)
  gives the mention feature \<open>mention-distance-5\<close>.
\<close>

theorem distance_features_spec:
  "distance_features x i i max_mention_distance max_token_distance = Inr [] \<and>
   (a \<noteq> i \<and> a < length x \<and> i < length x \<longrightarrow>
      distance_features x a i max_mention_distance max_token_distance =
        Inr ((if 0 < min \<bar>int i - int a\<bar> max_mention_distance
              then [(''mention-distance-'' @ str_int (min \<bar>int i - int a\<bar> max_mention_distance), 1)]
              else []) @
             (if 0 < min \<bar>start_token (x ! i) - end_token (x ! a)\<bar> max_token_distance
              then [(''token-distance-'' @
                      str_int (min \<bar>start_token (x ! i) - end_token (x ! a)\<bar> max_token_distance), 1)]
              else []))) \<and>
   (a < length x \<and> i < length x \<and> 5 \<le> \<bar>int i - int a\<bar> \<longrightarrow>
      distance_features x a i 5 max_token_distance =
        Inr ((''mention-distance-5'', 1) #
             (if 0 < min \<bar>start_token (x ! i) - end_token (x ! a)\<bar> max_token_distance
              then [(''token-distance-'' @
                      str_int (min \<bar>start_token (x ! i) - end_token (x ! a)\<bar> max_token_distance), 1)]
              else [])))"
proof (intro conjI impI)
  show "distance_features x i i max_mention_distance max_token_distance = Inr []"
    by (simp add: distance_features_def)
next
  assume "a \<noteq> i \<and> a < length x \<and> i < length x"
  then show "distance_features x a i max_mention_distance max_token_distance =
        Inr ((if 0 < min \<bar>int i - int a\<bar> max_mention_distance
              then [(''mention-distance-'' @ str_int (min \<bar>int i - int a\<bar> max_mention_distance), 1)]
              else []) @
             (if 0 < min \<bar>start_token (x ! i) - end_token (x ! a)\<bar> max_token_distance
              then [(''token-distance-'' @
                      str_int (min \<bar>start_token (x ! i) - end_token (x ! a)\<bar> max_token_distance), 1)]
              else []))"
    by (simp add: distance_features_def py_index_def bind_err_def Let_def)
next
  assume h: "a < length x \<and> i < length x \<and> 5 \<le> \<bar>int i - int a\<bar>"
  then have ne: "a \<noteq> i" by auto
  have "min \<bar>int i - int a\<bar> 5 = 5" using h by simp
  then show "distance_features x a i 5 max_token_distance =
        Inr ((''mention-distance-5'', 1) #
             (if 0 < min \<bar>start_token (x ! i) - end_token (x ! a)\<bar> max_token_distance
              then [(''token-distance-'' @
                      str_int (min \<bar>start_token (x ! i) - end_token (x ! a)\<bar> max_token_distance), 1)]
              else []))"
    using h ne by (simp add: distance_features_def py_index_def bind_err_def Let_def str_int_5)
qed

theorem distance_features_spec_witness:
  "distance_features example_markables 0 2 5 10 =
     Inr [(''mention-distance-2'', 1), (''token-distance-4'', 1)] \<and>
   distance_features (replicate 101 (example_markables ! 0)) 0 100 5 10 =
     Inr [(''mention-distance-5'', 1)]"
proof -
  have len: "length example_markables = 3"
    by (simp add: example_markables_def)
  have toks: "start_token (example_markables ! 2) = 4" "end_token (example_markables ! 0) = 0"
    "start_token (example_markables ! 0) = 0"
    by (simp_all add: example_markables_def)
  have "distance_features example_markables 0 2 5 10 =
     Inr [(''mention-distance-2'', 1), (''token-distance-4'', 1)]"
    using distance_features_spec [of example_markables 2 5 10 0] len toks
    by (simp add: str_int_small)
  moreover have "distance_features (replicate 101 (example_markables ! 0)) 0 100 5 10 =
     Inr [(''mention-distance-5'', 1)]"
    using distance_features_spec [of "replicate 101 (example_markables ! 0)" 100 5 10 0] toks
    by (simp add: str_int_5)
  ultimately show ?thesis by simp
qed

section \<open>Feature union\<close>

lemma map_of_dict_set: "map_of (dict_set d k v) = (map_of d)(k \<mapsto> v)"
  by (induction d k v rule: dict_set.induct) (auto simp: fun_eq_iff)

lemma keys_dict_set: "fst ` set (dict_set d k v) = insert k (fst ` set d)"
  by (induction d k v rule: dict_set.induct) auto

lemma distinct_dict_set:
  "distinct (map fst d) \<Longrightarrow> distinct (map fst (dict_set d k v))"
proof (induction d k v rule: dict_set.induct)
  case (1 k v)
  then show ?case by simp
next
  case (2 k' v' d k v)
  then show ?case
    using keys_dict_set [of d k v] by (auto simp: image_iff)
qed

lemma distinct_dict_update:
  "distinct (map fst f) \<Longrightarrow> distinct (map fst (dict_update f g))"
  unfolding dict_update_def
  by (induction g arbitrary: f) (auto simp: distinct_dict_set)

lemma map_of_dict_update:
  "distinct (map fst g) \<Longrightarrow> map_of (dict_update f g) = map_of f ++ map_of g"
  unfolding dict_update_def
proof (induction g arbitrary: f)
  case Nil
  then show ?case by simp
next
  case (Cons kv g)
  obtain k v where kv: "kv = (k, v)" by (cases kv)
  from Cons.prems kv have k: "k \<notin> fst ` set g" and d: "distinct (map fst g)"
    by auto
  have none: "map_of g k = None"
    using k by (simp add: map_of_eq_None_iff)
  have "map_of (fold (\<lambda>(k, v) d. dict_set d k v) g (dict_set f k v)) =
      (map_of f)(k \<mapsto> v) ++ map_of g"
    using Cons.IH [OF d, of "dict_set f k v"] by (simp only: map_of_dict_set)
  also have "\<dots> = map_of f ++ map_of ((k, v) # g)"
  proof (rule ext)
    fix k'
    show "((map_of f)(k \<mapsto> v) ++ map_of g) k' = (map_of f ++ map_of ((k, v) # g)) k'"
      using none by (auto simp: map_add_def split: option.splits)
  qed
  finally have calc: "map_of (fold (\<lambda>(k, v) d. dict_set d k v) g (dict_set f k v)) =
      map_of f ++ map_of ((k, v) # g)" .
  have unf: "fold (\<lambda>(k, v) d. dict_set d k v) (kv # g) f =
      fold (\<lambda>(k, v) d. dict_set d k v) g (dict_set f k v)"
    by (simp add: kv)
  show ?case
    by (simp only: unf) (simp only: kv calc)
qed

lemma union_fold:
  assumes "list_all2 (\<lambda>feat_func d. feat_func x a i = Inr d) feat_func_list ds"
    and "\<forall>d\<in>set ds. distinct (map fst d)"
    and "distinct (map fst f0)"
  shows "\<exists>f. fold (\<lambda>feat_func r.
                 bind_err r (\<lambda>f. bind_err (feat_func x a i) (\<lambda>g. Inr (dict_update f g))))
               feat_func_list (Inr f0) = Inr f \<and>
             distinct (map fst f) \<and>
             map_of f = foldl (++) (map_of f0) (map map_of ds)"
  using assms
proof (induction feat_func_list ds arbitrary: f0 rule: list_all2_induct)
  case Nil
  then show ?case by simp
next
  case (Cons feat_func feat_func_list d ds)
  have step: "bind_err (Inr f0) (\<lambda>f. bind_err (feat_func x a i) (\<lambda>g. Inr (dict_update f g)))
      = Inr (dict_update f0 d)"
    using Cons.hyps(1) by (simp add: bind_err_def)
  have dd: "distinct (map fst (dict_update f0 d))"
    using Cons.prems(2) by (rule distinct_dict_update)
  have m: "map_of (dict_update f0 d) = map_of f0 ++ map_of d"
    using Cons.prems(1) by (simp add: map_of_dict_update)
  from Cons.IH [OF _ dd] Cons.prems(1)
  obtain f where f: "fold (\<lambda>feat_func r.
                 bind_err r (\<lambda>f. bind_err (feat_func x a i) (\<lambda>g. Inr (dict_update f g))))
               feat_func_list (Inr (dict_update f0 d)) = Inr f"
      "distinct (map fst f)"
      "map_of f = foldl (++) (map_of (dict_update f0 d)) (map map_of ds)"
    by auto
  show ?case
    using f by (simp add: step m)
qed

text \<open>
  C8: when every extractor of the list returns a feature set on the inputs
  \<open>(x, a, i)\<close>, the extractor made by \<open>make_feature_union\<close> returns on the same inputs
  the key-wise union of these feature sets, in which a later extractor's value overwrites an
  earlier one's on the same key (\<open>++\<close> on maps, folded in list order); so the value of a
  key is the value that the last extractor having this key gives it.
\<close>

theorem make_feature_union_spec:
  assumes "list_all2 (\<lambda>feat_func d. feat_func x a i = Inr d) feat_func_list ds"
    and "\<forall>d\<in>set ds. distinct (map fst d)"
  shows "\<exists>f. make_feature_union feat_func_list x a i = Inr f \<and>
             distinct (map fst f) \<and>
             map_of f = foldl (++) Map.empty (map map_of ds) \<and>
             (\<forall>k. map_of f k =
                (case find (\<lambda>d. k \<in> fst ` set d) (rev ds) of
                   None \<Rightarrow> None
                 | Some d \<Rightarrow> map_of d k))"
proof -
  from union_fold [OF assms, of "[]"]
  obtain f where f: "make_feature_union feat_func_list x a i = Inr f"
      "distinct (map fst f)" "map_of f = foldl (++) Map.empty (map map_of ds)"
    by (auto simp: make_feature_union_def)
  have "foldl (++) m0 (map map_of ds) k =
      (case find (\<lambda>d. k \<in> fst ` set d) (rev ds) of None \<Rightarrow> m0 k | Some d \<Rightarrow> map_of d k)"
    for m0 :: "'b \<rightharpoonup> 'c" and k
  proof (induction ds arbitrary: m0 rule: rev_induct)
    case Nil
    then show ?case by simp
  next
    case (snoc d ds)
    show ?case
    proof (cases "k \<in> fst ` set d")
      case True
      then obtain v where "map_of d k = Some v"
        by (metis domD dom_map_of_conv_image_fst)
      then show ?thesis using True by (simp add: map_add_def)
    next
      case False
      then have "map_of d k = None" by (simp add: map_of_eq_None_iff)
      then show ?thesis using False snoc.IH by (simp add: map_add_def)
    qed
  qed
  then show ?thesis using f by auto
qed

theorem make_feature_union_spec_witness:
  "\<exists>f. make_feature_union
          [distance_features_default,
           \<lambda>x a i. Inr [(''mention-distance-2'', 7), (''new-entity'', 1)]]
          example_markables 0 2 = Inr f \<and>
       map_of f ''mention-distance-2'' = Some 7 \<and>
       map_of f ''token-distance-4'' = Some 1 \<and>
       map_of f ''new-entity'' = Some 1 \<and>
       map_of f ''crossover'' = None"
proof -
  let ?d1 = "[(''mention-distance-2'', 1::int), (''token-distance-4'', 1)]"
  let ?d2 = "[(''mention-distance-2'', 7::int), (''new-entity'', 1)]"
  let ?e2 = "\<lambda>(x::markable list) (a::nat) (i::nat). Inr ?d2 :: error + features"
  have h1: "list_all2 (\<lambda>feat_func d. feat_func example_markables 0 2 = Inr d)
      [distance_features_default, ?e2] [?d1, ?d2]"
    by (simp add: distance_features_example)
  have h2: "\<forall>d\<in>set [?d1, ?d2]. distinct (map fst d)"
    by simp
  from make_feature_union_spec [OF h1 h2]
  obtain f where f: "make_feature_union [distance_features_default, ?e2] example_markables 0 2
      = Inr f" "map_of f = foldl (++) Map.empty (map map_of [?d1, ?d2])"
    by blast
  have "map_of f ''mention-distance-2'' = Some 7" "map_of f ''token-distance-4'' = Some 1"
    "map_of f ''new-entity'' = Some 1" "map_of f ''crossover'' = None"
    by (simp_all add: f(2) map_add_def)
  then show ?thesis using f(1) by blast
qed

section \<open>The scorer: construction and the feature block\<close>

lemma bind_err_simps [simp]:
  "bind_err (Inl e) f = Inl e"
  "bind_err (Inr v) f = f v"
  by (simp_all add: bind_err_def)

lemma feat_to_idx_fold:
  "fold (\<lambda>(i, feat) d. d(feat \<mapsto> i)) (enumerate k fs) d0 f =
     (if f \<in> set fs then Some (k + (GREATEST j. j < length fs \<and> fs ! j = f)) else d0 f)"
proof (induction fs arbitrary: k d0 rule: rev_induct)
  case Nil
  then show ?case by simp
next
  case (snoc x fs)
  have "(GREATEST j. j < Suc (length fs) \<and> (fs @ [x]) ! j = x) = length fs"
    by (rule Greatest_equality) (auto simp: less_Suc_eq_le)
  moreover have "(GREATEST j. j < Suc (length fs) \<and> (fs @ [x]) ! j = f) =
      (GREATEST j. j < length fs \<and> fs ! j = f)" if "f \<noteq> x"
  proof -
    have "(j < Suc (length fs) \<and> (fs @ [x]) ! j = f) \<longleftrightarrow> (j < length fs \<and> fs ! j = f)" for j
      using that by (auto simp: nth_append less_Suc_eq)
    then show ?thesis by simp
  qed
  ultimately show ?case
    using snoc.IH [of k d0] by (auto simp: enumerate_append_eq)
qed

lemma init_feat_to_idx:
  assumes "SequentialScorer_init med fs fed hid offw onw netf = Inr self"
  shows "feat_set self = fs"
    and "feat_to_idx self f = None \<longleftrightarrow> f \<notin> set fs"
    and "feat_to_idx self f = Some j \<Longrightarrow> j < length fs"
proof -
  have self: "self = \<lparr>feat_set = fs, feat_emb_dim = fed,
      feat_to_idx = fold (\<lambda>(i, feat) d. d(feat \<mapsto> i)) (enumerate 0 fs) Map.empty,
      idx_to_feat = fold (\<lambda>(i, feat) d. d(i \<mapsto> feat)) (enumerate 0 fs) Map.empty,
      feat_off_embs = offw, feat_on_embs = onw, net = netf\<rparr>"
    using assms by (simp add: SequentialScorer_init_def)
  show "feat_set self = fs" by (simp add: self)
  show "feat_to_idx self f = None \<longleftrightarrow> f \<notin> set fs"
    by (simp add: self feat_to_idx_fold)
  show "j < length fs" if "feat_to_idx self f = Some j"
  proof -
    from that have f: "f \<in> set fs" and j: "j = (GREATEST j. j < length fs \<and> fs ! j = f)"
      by (auto simp: self feat_to_idx_fold split: if_splits)
    from f obtain j0 where "j0 < length fs \<and> fs ! j0 = f"
      by (auto simp: in_set_conv_nth)
    then have "(GREATEST j. j < length fs \<and> fs ! j = f) < length fs \<and>
        fs ! (GREATEST j. j < length fs \<and> fs ! j = f) = f"
      by (rule GreatestI_nat [where b = "length fs"]) simp
    then show ?thesis using j by simp
  qed
qed

lemma off_loop:
  "length t = n \<Longrightarrow> k \<le> n \<Longrightarrow>
   \<exists>t'. fold (\<lambda>i r. bind_err r (\<lambda>feature_emb.
              bind_err (embedding n w i) (\<lambda>row. set_row feature_emb i row)))
          [0..<k] (Inr t) = Inr t' \<and> length t' = n"
proof (induction k)
  case 0
  then show ?case by simp
next
  case (Suc k)
  then obtain t' where "fold (\<lambda>i r. bind_err r (\<lambda>feature_emb.
              bind_err (embedding n w i) (\<lambda>row. set_row feature_emb i row)))
          [0..<k] (Inr t) = Inr t'" "length t' = n"
    by auto
  then show ?case using Suc.prems by (simp add: embedding_def set_row_def)
qed

lemma on_loop_error:
  "fold (\<lambda>(i, feat) r. bind_err r (\<lambda>feature_emb.
           bind_err (embedding n w i) (\<lambda>row.
             case idx feat of None \<Rightarrow> Inl KeyError | Some j \<Rightarrow> set_row feature_emb j row)))
     xs (Inl e) = Inl e"
  by (induction xs) (auto split: prod.splits)

lemma on_loop:
  assumes "\<And>f j. idx f = Some j \<Longrightarrow> j < n"
  shows "length t = n \<Longrightarrow> k + length pos_feats \<le> n \<Longrightarrow>
    (if \<forall>f\<in>set pos_feats. idx f \<noteq> None
     then \<exists>t'. fold (\<lambda>(i, feat) r. bind_err r (\<lambda>feature_emb.
           bind_err (embedding n w i) (\<lambda>row.
             case idx feat of None \<Rightarrow> Inl KeyError | Some j \<Rightarrow> set_row feature_emb j row)))
           (enumerate k pos_feats) (Inr t) = Inr t' \<and> length t' = n
     else fold (\<lambda>(i, feat) r. bind_err r (\<lambda>feature_emb.
           bind_err (embedding n w i) (\<lambda>row.
             case idx feat of None \<Rightarrow> Inl KeyError | Some j \<Rightarrow> set_row feature_emb j row)))
           (enumerate k pos_feats) (Inr t) = Inl KeyError)"
proof (induction pos_feats arbitrary: k t)
  case Nil
  then show ?case by simp
next
  case (Cons f pos_feats)
  have emb: "embedding n w k = Inr (w k)"
    using Cons.prems(2) by (simp add: embedding_def)
  show ?case
  proof (cases "idx f")
    case None
    then show ?thesis using emb by (simp add: on_loop_error)
  next
    case (Some j)
    then have j: "j < length t" using assms Cons.prems(1) by simp
    have "length (t[j := w k]) = n" "Suc k + length pos_feats \<le> n"
      using Cons.prems by simp_all
    from Cons.IH [OF this] show ?thesis
      using Some j emb by (simp add: set_row_def)
  qed
qed

lemma on_loop_absent:
  "\<exists>f\<in>set pos_feats. idx f = None \<Longrightarrow>
    \<exists>e. fold (\<lambda>(i, feat) r. bind_err r (\<lambda>feature_emb.
           bind_err (embedding n w i) (\<lambda>row.
             case idx feat of None \<Rightarrow> Inl KeyError | Some j \<Rightarrow> set_row feature_emb j row)))
           (enumerate k pos_feats) r = Inl e"
proof (induction pos_feats arbitrary: k r)
  case Nil
  then show ?case by simp
next
  case (Cons f pos_feats)
  show ?case
  proof (cases "idx f")
    case None
    have "\<exists>e. bind_err r (\<lambda>feature_emb.
           bind_err (embedding n w k) (\<lambda>row.
             case idx f of None \<Rightarrow> Inl KeyError | Some j \<Rightarrow> set_row feature_emb j row)) = Inl e"
      using None by (cases r) (auto simp: embedding_def)
    then show ?thesis by (auto simp: on_loop_error)
  next
    case (Some j)
    then have "\<exists>f\<in>set pos_feats. idx f = None" using Cons.prems by auto
    from Cons.IH [OF this] show ?thesis by simp
  qed
qed

text \<open>
  C6 as the code has it: the constructor checks nothing and returns a scorer for every
  feature vocabulary. A positive feature whose name is not in the vocabulary makes
  \<open>forward\<close> raise at scoring time; the exception is the KeyError of \<open>feat_to_idx\<close>
  whenever the positive-feature list is not longer than the vocabulary.
\<close>

theorem absent_feature_raises_in_forward:
  "\<exists>self. SequentialScorer_init mark_embedding_dim fs fed hidden_dim offw onw netf = Inr self \<and>
     (\<forall>emb_i emb_a pos_feats.
        (\<exists>f\<in>set pos_feats. f \<notin> set fs) \<longrightarrow>
          (\<exists>e. forward self emb_i emb_a pos_feats = Inl e) \<and>
          (length pos_feats \<le> length fs \<longrightarrow>
             forward self emb_i emb_a pos_feats = Inl KeyError))"
proof -
  obtain self where init: "SequentialScorer_init mark_embedding_dim fs fed hidden_dim offw onw netf
      = Inr self"
    by (simp add: SequentialScorer_init_def)
  note facts = init_feat_to_idx [OF init]
  have "(\<exists>e. forward self emb_i emb_a pos_feats = Inl e) \<and>
        (length pos_feats \<le> length fs \<longrightarrow> forward self emb_i emb_a pos_feats = Inl KeyError)"
    if absent: "\<exists>f\<in>set pos_feats. f \<notin> set fs" for emb_i emb_a pos_feats
  proof -
    obtain t where t: "fold (\<lambda>i r. bind_err r (\<lambda>feature_emb.
              bind_err (embedding (length fs) (feat_off_embs self) i)
                (\<lambda>row. set_row feature_emb i row)))
          [0..<length fs] (Inr (replicate (length fs) (replicate (feat_emb_dim self) 0))) = Inr t"
        "length t = length fs"
      using off_loop [of "replicate (length fs) (replicate (feat_emb_dim self) 0)" "length fs"
          "length fs" "feat_off_embs self"]
      by auto
    have none: "\<exists>f\<in>set pos_feats. feat_to_idx self f = None"
      using absent facts(2) by blast
    have fe: "forward_feature_emb self pos_feats =
        fold (\<lambda>(i, feat) r. bind_err r (\<lambda>feature_emb.
           bind_err (embedding (length fs) (feat_on_embs self) i) (\<lambda>row.
             case feat_to_idx self feat of
               None \<Rightarrow> Inl KeyError | Some j \<Rightarrow> set_row feature_emb j row)))
           (enumerate 0 pos_feats) (Inr t)"
      by (simp add: forward_feature_emb_def facts(1) t(1))
    have "\<exists>e. forward_feature_emb self pos_feats = Inl e"
      unfolding fe using none by (rule on_loop_absent)
    then have 1: "\<exists>e. forward self emb_i emb_a pos_feats = Inl e"
      by (auto simp: forward_def)
    have 2: "forward self emb_i emb_a pos_feats = Inl KeyError"
      if len: "length pos_feats \<le> length fs"
    proof -
      have "\<not> (\<forall>f\<in>set pos_feats. feat_to_idx self f \<noteq> None)" using none by blast
      then have "forward_feature_emb self pos_feats = Inl KeyError"
        unfolding fe
        using on_loop [of "feat_to_idx self" "length fs" t 0 pos_feats "feat_on_embs self"]
          facts(3) t(2) len
        by simp
      then show ?thesis by (simp add: forward_def)
    qed
    show ?thesis using 1 2 by blast
  qed
  then show ?thesis using init by blast
qed

lemma example_scorer_init:
  "SequentialScorer_init 1 example_feat_set 1 1 (\<lambda>i. [0]) (\<lambda>i. [real i + 1]) sum_list =
     Inr example_scorer"
  unfolding example_scorer_def SequentialScorer_init_def by simp

lemma example_scorer_fields:
  "feat_set example_scorer = example_feat_set"
  "feat_emb_dim example_scorer = 1"
  "feat_off_embs example_scorer = (\<lambda>i. [0])"
  "feat_on_embs example_scorer = (\<lambda>i. [real i + 1])"
  "net example_scorer = sum_list"
  "feat_to_idx example_scorer ''mention-distance-1'' = Some 0"
  "feat_to_idx example_scorer ''mention-distance-2'' = Some 1"
  "feat_to_idx example_scorer ''token-distance-2'' = Some 2"
  "feat_to_idx example_scorer ''token-distance-4'' = Some 3"
  "feat_to_idx example_scorer ''new-entity'' = None"
  by (simp_all add: example_scorer_def SequentialScorer_init_def example_feat_set_def
      enumerate_eq_zip upt_rec)

theorem absent_feature_raises_in_forward_witness:
  "SequentialScorer_init 1 example_feat_set 1 1 (\<lambda>i. [0]) (\<lambda>i. [real i + 1]) sum_list =
     Inr example_scorer \<and>
   forward example_scorer [3] [2] [''mention-distance-2'', ''crossover''] = Inl KeyError"
proof -
  from absent_feature_raises_in_forward [of 1 example_feat_set 1 1 "\<lambda>i. [0]"
      "\<lambda>i. [real i + 1]" sum_list]
  obtain self where self:
    "SequentialScorer_init 1 example_feat_set 1 1 (\<lambda>i. [0]) (\<lambda>i. [real i + 1]) sum_list
       = Inr self"
    "\<And>emb_i emb_a pos_feats.
        \<exists>f\<in>set pos_feats. f \<notin> set example_feat_set \<Longrightarrow>
        length pos_feats \<le> length example_feat_set \<Longrightarrow>
        forward self emb_i emb_a pos_feats = Inl KeyError"
    by blast
  have eq: "self = example_scorer"
    using self(1) by (simp only: example_scorer_init sum.inject)
  have "\<exists>f\<in>set [''mention-distance-2'', ''crossover'']. f \<notin> set example_feat_set"
    by (simp add: example_feat_set_def)
  moreover have "length [''mention-distance-2'', ''crossover''] \<le> length example_feat_set"
    by (simp add: example_feat_set_def)
  ultimately have "forward self [3] [2] [''mention-distance-2'', ''crossover''] = Inl KeyError"
    by (rule self(2))
  then show ?thesis
    unfolding eq using example_scorer_init by (rule conjI [rotated])
qed

text \<open>
  The claim C6 fails on the example scorer: constructing it succeeds, and the feature
  \<open>new-entity\<close>, which is not in its vocabulary, raises KeyError in \<open>forward\<close>.
\<close>

theorem no_check_at_construction_counterexample:
  "SequentialScorer_init 1 example_feat_set 1 1 (\<lambda>i. [0]) (\<lambda>i. [real i + 1]) sum_list =
     Inr example_scorer \<and>
   ''new-entity'' \<notin> set example_feat_set \<and>
   forward example_scorer [2] [2] [''new-entity''] = Inl KeyError"
proof -
  have "forward example_scorer [2] [2] [''new-entity''] = Inl KeyError"
    by (simp add: example_scorer_fields forward_def forward_feature_emb_def
        example_feat_set_def embedding_def set_row_def upt_rec)
  moreover have "''new-entity'' \<notin> set example_feat_set"
    by (simp add: example_feat_set_def)
  ultimately show ?thesis
    using example_scorer_init by (intro conjI)
qed

text \<open>
  C4 at a failing input. The vocabulary of the example scorer is \<open>mention-distance-1\<close>,
  \<open>mention-distance-2\<close>, \<open>token-distance-2\<close>, \<open>token-distance-4\<close>, the inactive
  embeddings are all \<open>[0]\<close> and the active embedding at vocabulary index \<open>i\<close> is
  \<open>[i + 1]\<close>. For the positive features \<open>mention-distance-2\<close> and \<open>token-distance-4\<close>
  (vocabulary indices 1 and 3) the block holds, in the slots 1 and 3, the active embeddings
  of the vocabulary indices 0 and 1, which are the positions of the two names in the
  positive-feature list, and not the active embeddings \<open>[2]\<close> and \<open>[4]\<close> of the features
  themselves.
\<close>

theorem forward_active_embedding_of_list_position:
  "forward_feature_emb example_scorer [''mention-distance-2'', ''token-distance-4''] =
     Inr [[0], [1], [0], [2]] \<and>
   feat_to_idx example_scorer ''mention-distance-2'' = Some 1 \<and>
   feat_on_embs example_scorer 1 = [2] \<and>
   feat_to_idx example_scorer ''token-distance-4'' = Some 3 \<and>
   feat_on_embs example_scorer 3 = [4]"
  by (simp add: example_scorer_fields forward_feature_emb_def
      example_feat_set_def embedding_def set_row_def upt_rec)

section \<open>Top scores of a training instance\<close>








lemma forward_example:
  "forward example_scorer emb_i emb_a [] = Inr (sum_list emb_i + sum_list emb_a)"
  "forward example_scorer emb_i emb_a [''mention-distance-1'', ''token-distance-2''] =
     Inr (sum_list emb_i + sum_list emb_a + 3)"
  "forward example_scorer emb_i emb_a [''mention-distance-2'', ''token-distance-4''] =
     Inr (sum_list emb_i + sum_list emb_a + 3)"
  by (simp_all add: forward_def forward_feature_emb_def example_scorer_fields
      example_feat_set_def embedding_def set_row_def upt_rec)

lemma distance_features_example_Suc:
  "distance_features_default example_markables (Suc 0) (Suc 0) = Inr []"
  "distance_features_default example_markables 0 (Suc 0) =
     Inr [(''mention-distance-1'', 1), (''token-distance-2'', 1)]"
  "distance_features_default example_markables (Suc 0) 2 =
     Inr [(''mention-distance-1'', 1), (''token-distance-2'', 1)]"
  using distance_features_example by simp_all

lemma score_instance_example:
  "score_instance example_scorer [[x0], [x1], [x2]] example_markables 0 distance_features_default
     = Inr [x0 + x0]"
  "score_instance example_scorer [[x0], [x1], [x2]] example_markables 1 distance_features_default
     = Inr [x1 + x0 + 3, x1 + x1]"
  "score_instance example_scorer [[x0], [x1], [x2]] example_markables 2 distance_features_default
     = Inr [x2 + x0 + 3, x2 + x1 + 3, x2 + x2]"
proof -
  have len: "length example_markables = 3" by (simp add: example_markables_def)
  have en: "enumerate 0 (take n example_markables) =
      zip [0..<min n 3] (take n example_markables)" for n
    by (simp add: enumerate_eq_zip len min.commute)
  have tk: "take (Suc 0) example_markables = [example_markables ! 0]"
    "take (Suc (Suc 0)) example_markables = [example_markables ! 0, example_markables ! 1]"
    "take 3 example_markables = example_markables"
    by (simp_all add: example_markables_def)
  show "score_instance example_scorer [[x0], [x1], [x2]] example_markables 0
      distance_features_default = Inr [x0 + x0]"
    by (simp add: score_instance_def en tk py_index_def get_pos_feats_def
        distance_features_example distance_features_example_Suc forward_example)
  show "score_instance example_scorer [[x0], [x1], [x2]] example_markables 1
      distance_features_default = Inr [x1 + x0 + 3, x1 + x1]"
    by (simp add: score_instance_def en tk py_index_def get_pos_feats_def
        distance_features_example distance_features_example_Suc forward_example upt_rec)
  have en3: "enumerate 0 example_markables =
      [(0, example_markables ! 0), (Suc 0, example_markables ! Suc 0), (2, example_markables ! 2)]"
    by (simp add: example_markables_def enumerate_eq_zip upt_rec)
  show "score_instance example_scorer [[x0], [x1], [x2]] example_markables 2
      distance_features_default = Inr [x2 + x0 + 3, x2 + x1 + 3, x2 + x2]"
    by (simp add: score_instance_def tk en3 py_index_def get_pos_feats_def
        distance_features_example distance_features_example_Suc forward_example)
qed


section \<open>The training loss of a document\<close>

lemma loss_fold_error:
  "fold (\<lambda>i r. bind_err r (step i)) xs (Inl e) = Inl e"
  by (induction xs) simp_all

lemma loss_fold_terms:
  fixes step :: "nat \<Rightarrow> float32 \<Rightarrow> error + float32"
  assumes "\<And>i l l'. step i l = Inr l' \<Longrightarrow> l' = foldl (fadd rnd) l (contrib i)"
  shows "fold (\<lambda>i r. bind_err r (step i)) xs (Inr l0) = Inr l \<Longrightarrow>
         l = foldl (fadd rnd) l0 (concat (map contrib xs))"
proof (induction xs arbitrary: l0)
  case Nil
  then show ?case by simp
next
  case (Cons x xs)
  show ?case
  proof (cases "step x l0")
    case (Inl e)
    then show ?thesis using Cons.prems by (simp add: loss_fold_error)
  next
    case (Inr l1)
    then have "l = foldl (fadd rnd) l1 (concat (map contrib xs))"
      using Cons.prems by (intro Cons.IH) simp
    then show ?thesis using assms [OF Inr] by simp
  qed
qed

lemma fadd_nonneg:
  assumes "\<forall>r. 0 \<le> r \<longrightarrow> nonneg (rnd r)" and "nonneg x" and "nonneg y"
  shows "nonneg (fadd rnd x y)"
  using assms by (cases x; cases y) simp_all

lemma foldl_fadd_nonneg:
  assumes "\<forall>r. 0 \<le> r \<longrightarrow> nonneg (rnd r)"
  shows "nonneg l0 \<Longrightarrow> \<forall>t\<in>set ts. nonneg t \<Longrightarrow> nonneg (foldl (fadd rnd) l0 ts)"
  by (induction ts arbitrary: l0) (simp_all add: fadd_nonneg [OF assms])

lemma hinge_not_NaN:
  assumes "\<forall>r. rnd r \<noteq> NaN" and "margin \<noteq> NaN" and "is_finite max_t" and "is_finite max_f"
  shows "fadd rnd (fsub rnd margin max_t) max_f \<noteq> NaN"
proof -
  from assms(3,4) obtain t f where tf: "max_t = Finite t" "max_f = Finite f"
    by (cases max_t; cases max_f) simp_all
  have "fsub rnd margin (Finite t) \<noteq> NaN"
    using assms(1,2) by (cases margin) (simp_all add: fsub_def)
  then show ?thesis
    using assms(1) unfolding tf by (cases "fsub rnd margin (Finite t)") simp_all
qed

lemma fmax_zero_nonneg: "m \<noteq> NaN \<Longrightarrow> nonneg (fmax (Finite 0) m)"
  by (cases m) simp_all

text \<open>
  C9 as the code has it. The loss is accumulated in float32. When the margin is not NaN and
  the top scores that the scoring model returns for the mentions of the document are
  finite, and the loop completes, then the accumulated loss is the float32 sum, from left to
  right and starting at 0, of the hinge terms \<open>max(0, margin - max_t + max_f)\<close> of the
  mentions with top scores (a skipped mention adds nothing), every term is non-negative, and
  the loss is non-negative (a real that is at least 0, or the positive infinity). The
  rounding \<open>rnd\<close> of the machine never gives NaN and gives a non-negative value for a
  non-negative real.
\<close>

theorem train_document_loss_nonneg_finite_scores:
  assumes "\<forall>r. rnd r \<noteq> NaN" and "\<forall>r. 0 \<le> r \<longrightarrow> nonneg (rnd r)"
    and "margin \<noteq> NaN"
    and "\<forall>i max_t max_f.
           bind_err (py_index true_ants i)
             (\<lambda>true_ant. scoring_model att_embs marks i true_ant feats) =
             Inr (Some (max_t, max_f)) \<longrightarrow>
           is_finite max_t \<and> is_finite max_f"
    and "train_document_loss rnd scoring_model att_embs marks true_ants feats margin = Inr loss"
  shows "nonneg loss \<and>
     loss = foldl (fadd rnd) (Finite 0)
              (concat (map (\<lambda>i.
                 case bind_err (py_index true_ants i)
                        (\<lambda>true_ant. scoring_model att_embs marks i true_ant feats)
                 of Inr (Some (max_t, max_f)) \<Rightarrow>
                      [fmax (Finite 0) (fadd rnd (fsub rnd margin max_t) max_f)]
                  | _ \<Rightarrow> [])
               [0..<length marks])) \<and>
     (\<forall>i max_t max_f.
           bind_err (py_index true_ants i)
             (\<lambda>true_ant. scoring_model att_embs marks i true_ant feats) =
             Inr (Some (max_t, max_f)) \<longrightarrow>
           nonneg (fmax (Finite 0) (fadd rnd (fsub rnd margin max_t) max_f)))"
proof -
  let ?top = "\<lambda>i. bind_err (py_index true_ants i)
                  (\<lambda>true_ant. scoring_model att_embs marks i true_ant feats)"
  let ?contrib = "\<lambda>i. case ?top i of
                    Inr (Some (max_t, max_f)) \<Rightarrow>
                      [fmax (Finite 0) (fadd rnd (fsub rnd margin max_t) max_f)]
                  | _ \<Rightarrow> []"
  let ?step = "\<lambda>i loss.
             bind_err (py_index true_ants i) (\<lambda>true_ant.
             bind_err (scoring_model att_embs marks i true_ant feats)
               (\<lambda>top. case top of
                         None \<Rightarrow> Inr loss
                       | Some (max_t, max_f) \<Rightarrow>
                           (let marg = fadd rnd (fsub rnd margin max_t) max_f
                            in Inr (fadd rnd loss (fmax (Finite 0) marg)))))"
  have step: "l' = foldl (fadd rnd) l (?contrib i)" if "?step i l = Inr l'" for i l l'
    using that
    by (cases "py_index true_ants i")
      (auto simp: Let_def split: sum.splits option.splits prod.splits)
  have run: "fold (\<lambda>i r. bind_err r (?step i)) [0..<length marks] (Inr (Finite 0)) = Inr loss"
    using assms(5) by (simp add: train_document_loss_def)
  have sum: "loss = foldl (fadd rnd) (Finite 0) (concat (map ?contrib [0..<length marks]))"
    by (rule loss_fold_terms [where step = ?step, OF step run])
  have hinge: "nonneg (fmax (Finite 0) (fadd rnd (fsub rnd margin max_t) max_f))"
    if "?top i = Inr (Some (max_t, max_f))" for i max_t max_f
  proof -
    from that assms(4) have "is_finite max_t" "is_finite max_f" by blast+
    then have "fadd rnd (fsub rnd margin max_t) max_f \<noteq> NaN"
      by (rule hinge_not_NaN [OF assms(1) assms(3)])
    then show ?thesis by (rule fmax_zero_nonneg)
  qed
  have "\<forall>t\<in>set (concat (map ?contrib [0..<length marks])). nonneg t"
    using hinge by (auto split: sum.splits option.splits prod.splits)
  then have "nonneg (foldl (fadd rnd) (Finite 0) (concat (map ?contrib [0..<length marks])))"
    by (intro foldl_fadd_nonneg [OF assms(2)]) simp_all
  then show ?thesis using sum hinge by simp
qed

lemma round_in_range_props:
  "\<forall>r. round_in_range r \<noteq> NaN" "\<forall>r. 0 \<le> r \<longrightarrow> nonneg (round_in_range r)"
  by (simp_all add: round_in_range_def max_float32_def)

lemma round_in_range_example:
  "round_in_range 8 = Finite 8" "round_in_range 7 = Finite 7"
  "round_in_range (- 6) = Finite (- 6)" "round_in_range 1 = Finite 1"
  by (simp_all add: round_in_range_def max_float32_def)

lemma instance_top_scores_example:
  "instance_top_scores example_scorer [[x0], [x1], [x2]] example_markables 0 0
     distance_features_default = Inr None"
  "instance_top_scores example_scorer [[x0], [x1], [x2]] example_markables (Suc 0) (Suc 0)
     distance_features_default = Inr None"
  "instance_top_scores example_scorer [[x0], [x1], [x2]] example_markables 2 0
     distance_features_default = Inr (Some (x2 + x0 + 3, x2 + x1 + 3))"
proof -
  show "instance_top_scores example_scorer [[x0], [x1], [x2]] example_markables 0 0
     distance_features_default = Inr None"
    "instance_top_scores example_scorer [[x0], [x1], [x2]] example_markables (Suc 0) (Suc 0)
     distance_features_default = Inr None"
    by (simp_all add: instance_top_scores_def)
  have ent: "length example_markables = 3"
    "entity (example_markables ! 0) = ''e1''" "entity (example_markables ! Suc 0) = ''e2''"
    by (simp_all add: example_markables_def)
  show "instance_top_scores example_scorer [[x0], [x1], [x2]] example_markables 2 0
     distance_features_default = Inr (Some (x2 + x0 + 3, x2 + x1 + 3))"
    by (simp add: instance_top_scores_def score_instance_example ent upt_rec py_index_def)
qed

lemma example_mentions: "[0..<length example_markables] = [0, Suc 0, 2]"
  by (simp add: example_markables_def upt_rec)

theorem train_document_loss_nonneg_finite_scores_witness:
  "train_document_loss round_in_range (scorer_top_scores round_in_range example_scorer)
     example_embs example_markables [0, 1, 0] distance_features_default (Finite 2) =
     Inr (Finite 1) \<and>
   scorer_top_scores round_in_range example_scorer example_embs example_markables 2 0
     distance_features_default = Inr (Some (Finite 8, Finite 7)) \<and>
   nonneg (Finite 1)"
proof -
  have tops: "scorer_top_scores round_in_range example_scorer example_embs example_markables 0 0
      distance_features_default = Inr None"
    "scorer_top_scores round_in_range example_scorer example_embs example_markables (Suc 0)
      (Suc 0) distance_features_default = Inr None"
    "scorer_top_scores round_in_range example_scorer example_embs example_markables 2 0
      distance_features_default = Inr (Some (Finite 8, Finite 7))"
    by (simp_all add: scorer_top_scores_def example_embs_def instance_top_scores_example
        round_in_range_example)
  have run: "train_document_loss round_in_range
      (scorer_top_scores round_in_range example_scorer) example_embs example_markables
      [0, 1, 0] distance_features_default (Finite 2) = Inr (Finite 1)"
    by (simp add: train_document_loss_def example_mentions py_index_def tops fsub_def
        round_in_range_example)
  have fin: "\<forall>i max_t max_f.
      bind_err (py_index [0, 1, 0] i)
        (\<lambda>true_ant. scorer_top_scores round_in_range example_scorer example_embs
           example_markables i true_ant distance_features_default) =
        Inr (Some (max_t, max_f)) \<longrightarrow>
      is_finite max_t \<and> is_finite max_f"
  proof (intro allI impI)
    fix i max_t max_f
    assume top: "bind_err (py_index [0, 1, 0] i)
        (\<lambda>true_ant. scorer_top_scores round_in_range example_scorer example_embs
           example_markables i true_ant distance_features_default) =
        Inr (Some (max_t, max_f))"
    then have "i < 3" by (auto simp: py_index_def split: if_splits)
    then consider "i = 0" | "i = Suc 0" | "i = 2" by linarith
    then show "is_finite max_t \<and> is_finite max_f"
      using top by cases (auto simp: py_index_def tops)
  qed
  have margin: "Finite 2 \<noteq> NaN" by simp
  from train_document_loss_nonneg_finite_scores [OF round_in_range_props margin fin run]
  have "nonneg (Finite 1)" by (rule conjunct1)
  then show ?thesis using run tops(3) by simp
qed

text \<open>
  The claim C9 fails when scores overflow. With embeddings of \<open>2^127\<close> the two top scores
  of the third mention of the example document are beyond the range of float32 and arrive
  as \<open>inf\<close>; then \<open>margin - inf + inf\<close> is NaN, the maximum of 0 and NaN is NaN, and the
  loss of the document is NaN, which is not a non-negative number.
\<close>

theorem train_document_loss_overflow_counterexample:
  "scorer_top_scores round_in_range example_scorer huge_embs example_markables 2 0
     distance_features_default = Inr (Some (PosInf, PosInf)) \<and>
   train_document_loss round_in_range (scorer_top_scores round_in_range example_scorer)
     huge_embs example_markables [0, 1, 0] distance_features_default (Finite 1) = Inr NaN \<and>
   \<not> nonneg NaN"
proof -
  have tops: "scorer_top_scores round_in_range example_scorer huge_embs example_markables 0 0
      distance_features_default = Inr None"
    "scorer_top_scores round_in_range example_scorer huge_embs example_markables (Suc 0)
      (Suc 0) distance_features_default = Inr None"
    "scorer_top_scores round_in_range example_scorer huge_embs example_markables 2 0
      distance_features_default = Inr (Some (PosInf, PosInf))"
    by (simp_all add: scorer_top_scores_def huge_embs_def instance_top_scores_example
        round_in_range_def max_float32_def)
  have "train_document_loss round_in_range (scorer_top_scores round_in_range example_scorer)
     huge_embs example_markables [0, 1, 0] distance_features_default (Finite 1) = Inr NaN"
    by (simp add: train_document_loss_def example_mentions py_index_def tops fsub_def)
  then show ?thesis using tops(3) by simp
qed

section \<open>The learned resolver and the gold entity field\<close>

lemma map_err_enumerate:
  "map_err (\<lambda>(j, m). g j) (enumerate n xs) = map_err g [n..<n + length xs]"
proof (induction xs arbitrary: n)
  case Nil
  then show ?case by simp
next
  case (Cons x xs)
  have "n + length (x # xs) = Suc n + length xs" by simp
  then have step: "[n..<n + length (x # xs)] = n # [Suc n..<Suc n + length xs]"
    by (simp only:) (rule upt_conv_Cons, simp)
  show ?case
    by (simp only: step enumerate_simps map_err.simps prod.case Cons.IH)
qed

lemma map_err_cong:
  "(\<And>x. x \<in> set xs \<Longrightarrow> f x = g x) \<Longrightarrow> map_err f xs = map_err g xs"
proof (induction xs)
  case Nil
  then show ?case by simp
next
  case (Cons x xs)
  have "f x = g x" by (rule Cons.prems) simp
  moreover have "map_err f xs = map_err g xs"
    by (rule Cons.IH, rule Cons.prems) simp
  ultimately show ?case by (simp cong: sum.case_cong)
qed

lemma score_instance_same_features:
  assumes "length ms = length ms'" and "\<And>a. feats ms a i = feats ms' a i"
  shows "score_instance self doc_embs ms i feats = score_instance self doc_embs ms' i feats"
proof -
  have "score_instance self doc_embs xs i feats =
      map_err (\<lambda>ant_index.
                bind_err (py_index doc_embs i) (\<lambda>emb_i.
                bind_err (py_index doc_embs ant_index) (\<lambda>emb_a.
                bind_err (get_pos_feats feats xs ant_index i) (\<lambda>pos_feats.
                  forward self emb_i emb_a pos_feats))))
        [0..<0 + length (take (i + 1) xs)]" for xs
    unfolding score_instance_def by (rule map_err_enumerate)
  then show ?thesis using assms by (simp add: get_pos_feats_def)
qed

lemma differ_only_in_entity_nth:
  assumes "differ_only_in_entity ms ms'"
  shows "length ms = length ms'"
    and "j < length ms \<Longrightarrow> start_token (ms' ! j) = start_token (ms ! j)"
    and "j < length ms \<Longrightarrow> end_token (ms' ! j) = end_token (ms ! j)"
proof -
  from assms have l: "list_all2 (\<lambda>m m'. m' = m\<lparr>entity := entity m'\<rparr>) ms ms'"
    by (simp add: differ_only_in_entity_def)
  then show "length ms = length ms'" by (rule list_all2_lengthD)
  assume "j < length ms"
  with l have eq: "ms' ! j = (ms ! j)\<lparr>entity := entity (ms' ! j)\<rparr>"
    by (rule list_all2_nthD)
  show "start_token (ms' ! j) = start_token (ms ! j)" by (subst eq) simp
  show "end_token (ms' ! j) = end_token (ms ! j)" by (subst eq) simp
qed

lemma distance_features_entity_blind:
  assumes "differ_only_in_entity xs ys"
  shows "distance_features_default xs a i = distance_features_default ys a i"
proof -
  note same = differ_only_in_entity_nth [OF assms]
  show ?thesis
  proof (cases "a < length xs \<and> i < length xs")
    case True
    then show ?thesis
      using same(1) same(2) [of i] same(3) [of a]
      by (simp add: distance_features_default_def distance_features_def py_index_def Let_def)
  next
    case False
    then show ?thesis
      using same(1)
      by (auto simp: distance_features_default_def distance_features_def py_index_def)
  qed
qed

text \<open>
  C3 as the code has it. The resolver reads the gold entity of the first markable, as the
  key under which the embeddings of the document are stored in \<open>emb_dict\<close>, and no other
  entity value: on two markable lists that differ only in their entity values it returns the
  same result, provided that the entity values of the two first markables select the same
  entry of \<open>emb_dict\<close> and that the feature extractor does not read the entity field.
\<close>

theorem learned_resolver_reads_first_entity_only:
  assumes "differ_only_in_entity ms ms'"
    and "ms \<noteq> [] \<longrightarrow> emb_dict (entity (ms ! 0)) = emb_dict (entity (ms' ! 0))"
    and "\<forall>xs ys a i. differ_only_in_entity xs ys \<longrightarrow> feats xs a i = feats ys a i"
  shows "neural_net_make_resolver feats emb_dict scoring_model utils_argmax ms =
         neural_net_make_resolver feats emb_dict scoring_model utils_argmax ms'"
proof -
  have len: "length ms = length ms'"
    using assms(1) by (rule differ_only_in_entity_nth(1))
  have sc: "score_instance scoring_model doc_embs ms i feats =
      score_instance scoring_model doc_embs ms' i feats" for doc_embs i
    using len assms(1,3) by (intro score_instance_same_features) auto
  show ?thesis
  proof (cases "ms = []")
    case True
    then show ?thesis using len by (simp add: neural_net_make_resolver_def)
  next
    case False
    then have "ms' \<noteq> []" using len by auto
    then have first: "py_index ms 0 = Inr (ms ! 0)" "py_index ms' 0 = Inr (ms' ! 0)"
      using False by (simp_all add: py_index_def)
    have key: "emb_dict (entity (ms ! 0)) = emb_dict (entity (ms' ! 0))"
      using assms(2) False by simp
    show ?thesis
      unfolding neural_net_make_resolver_def len
      by (rule map_err_cong) (simp add: first key sc split: option.splits)
  qed
qed

lemma argmax_example:
  "argmax [6, 2] = Inr 0" "argmax [8, 7, 6] = Inr 0" "argmax [4] = Inr 0"
  "argmax [0] = Inr 0" "argmax [8, 10] = Inr 1" "argmax [3, 8, 0] = Inr 1"
  by (simp_all add: argmax_def)

lemma score_instance_example_Suc:
  "score_instance example_scorer [[x0], [x1], [x2]] example_markables (Suc 0)
     distance_features_default = Inr [x1 + x0 + 3, x1 + x1]"
  using score_instance_example(2) [of x0 x1 x2] by simp

lemma example_resolver_run:
  "neural_net_make_resolver distance_features_default example_emb_dict example_scorer argmax
     example_markables = Inr [0, 0, 0]"
proof -
  have mentions: "[0..<length example_markables] = [0, Suc 0, 2]"
    by (simp add: example_markables_def upt_rec)
  have first: "py_index example_markables 0 = Inr (example_markables ! 0)"
    "entity (example_markables ! 0) = ''e1''"
    by (simp_all add: example_markables_def py_index_def)
  show ?thesis
    by (simp add: neural_net_make_resolver_def mentions first example_emb_dict_def
        score_instance_example score_instance_example_Suc argmax_example)
qed

theorem learned_resolver_reads_first_entity_only_witness:
  "differ_only_in_entity example_markables relabelled_rest \<and>
   entity (relabelled_rest ! 2) \<noteq> entity (example_markables ! 2) \<and>
   neural_net_make_resolver distance_features_default example_emb_dict example_scorer argmax
     relabelled_rest = Inr [0, 0, 0]"
proof -
  have d: "differ_only_in_entity example_markables relabelled_rest"
    by (simp add: differ_only_in_entity_def relabelled_rest_def example_markables_def)
  have k: "example_markables \<noteq> [] \<longrightarrow>
      example_emb_dict (entity (example_markables ! 0)) =
      example_emb_dict (entity (relabelled_rest ! 0))"
    by (simp add: relabelled_rest_def example_markables_def)
  have f: "\<forall>xs ys a i. differ_only_in_entity xs ys \<longrightarrow>
      distance_features_default xs a i = distance_features_default ys a i"
    by (simp add: distance_features_entity_blind)
  have "neural_net_make_resolver distance_features_default example_emb_dict example_scorer
      argmax relabelled_rest = Inr [0, 0, 0]"
    using learned_resolver_reads_first_entity_only [OF d k f, of example_scorer argmax]
    by (simp add: example_resolver_run)
  moreover have "entity (relabelled_rest ! 2) \<noteq> entity (example_markables ! 2)"
    by (simp add: relabelled_rest_def example_markables_def)
  ultimately show ?thesis using d by simp
qed

text \<open>
  The claim C3 fails on the example document: with the gold entity of the first markable
  changed from \<open>e1\<close> to \<open>e2\<close> and nothing else, the resolver takes the embeddings stored
  under \<open>e2\<close> and returns another assignment.
\<close>

theorem learned_resolver_entity_counterexample:
  "differ_only_in_entity example_markables relabelled_first \<and>
   neural_net_make_resolver distance_features_default example_emb_dict example_scorer argmax
     example_markables = Inr [0, 0, 0] \<and>
   neural_net_make_resolver distance_features_default example_emb_dict example_scorer argmax
     relabelled_first = Inr [0, 1, 1]"
proof -
  have d: "differ_only_in_entity example_markables relabelled_first"
    by (simp add: differ_only_in_entity_def relabelled_first_def example_markables_def)
  have mentions: "[0..<length relabelled_first] = [0, Suc 0, 2]"
    by (simp add: relabelled_first_def example_markables_def upt_rec)
  have first: "py_index relabelled_first 0 = Inr (relabelled_first ! 0)"
    "entity (relabelled_first ! 0) = ''e2''"
    by (simp_all add: relabelled_first_def example_markables_def py_index_def)
  have sc: "score_instance example_scorer doc_embs relabelled_first i distance_features_default =
      score_instance example_scorer doc_embs example_markables i distance_features_default"
    for doc_embs i
    using d differ_only_in_entity_nth(1) [OF d]
    by (intro score_instance_same_features [symmetric])
      (simp_all add: distance_features_entity_blind)
  have "neural_net_make_resolver distance_features_default example_emb_dict example_scorer
      argmax relabelled_first = Inr [0, 1, 1]"
    by (simp add: neural_net_make_resolver_def mentions first example_emb_dict_def sc
        score_instance_example score_instance_example_Suc argmax_example)
  then show ?thesis using d example_resolver_run by simp
qed

end
